theory Spec2Isabelle
  imports Main "HOL-Library.Word"
begin

unbundle bit_operations_syntax

section \<open>The Cressi Goa driver of libdivecomputer (\<^verbatim>\<open>src/cressi_goa.c\<close>)\<close>

text \<open>
  A shallow embedding of the driver. Bytes are \<open>8 word\<close>, a buffer or an array
  is a list of bytes, and a pointer into an array together with its size is the list
  of bytes it designates. The device is a record holding the byte stream and the
  fingerprint; every function that performs I/O takes the device and returns it
  updated.
\<close>

subsection \<open>Types and constants\<close>

type_synonym byte = "8 word"

text \<open>The status codes of \<^verbatim>\<open>dc_status_t\<close> (declared in \<^verbatim>\<open>common.h\<close>).\<close>

datatype dc_status_t =
    DC_STATUS_SUCCESS
  | DC_STATUS_DONE
  | DC_STATUS_UNSUPPORTED
  | DC_STATUS_INVALIDARGS
  | DC_STATUS_NOMEMORY
  | DC_STATUS_NODEVICE
  | DC_STATUS_NOACCESS
  | DC_STATUS_IO
  | DC_STATUS_TIMEOUT
  | DC_STATUS_PROTOCOL
  | DC_STATUS_DATAFORMAT
  | DC_STATUS_CANCELLED

definition CMD_VERSION :: byte where "CMD_VERSION = 0x00"
definition CMD_SET_TIME :: byte where "CMD_SET_TIME = 0x13"
definition CMD_EXIT_PCLINK :: byte where "CMD_EXIT_PCLINK = 0x1D"
definition CMD_LOGBOOK :: byte where "CMD_LOGBOOK = 0x21"
definition CMD_DIVE :: byte where "CMD_DIVE = 0x22"
definition CMD_LOGBOOK_V4 :: byte where "CMD_LOGBOOK_V4 = 0x23"

definition HEADER :: byte where "HEADER = 0xAA"
definition TRAILER :: byte where "TRAILER = 0x55"
definition END :: byte where "END = 0x04"
definition ACK :: byte where "ACK = 0x06"

definition SZ_DATA :: nat where "SZ_DATA = 512"
definition SZ_PACKET :: nat where "SZ_PACKET = 12"
definition SZ_HEADER :: nat where "SZ_HEADER = 23"

definition FP_OFFSET :: nat where "FP_OFFSET = 0x11"
definition FP_SIZE :: nat where "FP_SIZE = 6"

definition NSTEPS :: nat where "NSTEPS = 1000"

definition STEP :: "nat \<Rightarrow> nat \<Rightarrow> nat" where
  "STEP i n = NSTEPS * i div n"

subsection \<open>The byte stream and the device\<close>

text \<open>
  Modelled from the spec: the byte-stream collaborator (\<^verbatim>\<open>dc_iostream_t\<close>, not part
  of this file) is a blocking stream whose \<open>read\<close> delivers exactly the bytes asked for
  or fails with an I/O error. Here \<open>rx\<close> holds the bytes the device will send, in
  order, and \<open>tx\<close> the bytes written so far. A read of \<open>n\<close> bytes succeeds when
  \<open>n\<close> bytes are pending and fails with \<open>DC_STATUS_IO\<close> otherwise; a write appends to
  \<open>tx\<close>. The settle delay (\<^verbatim>\<open>dc_iostream_sleep\<close>) moves no byte and is left out.
\<close>

record dc_iostream_t =
  rx :: "byte list"
  tx :: "byte list"

definition dc_iostream_read ::
  "dc_iostream_t \<Rightarrow> nat \<Rightarrow> dc_status_t \<times> byte list \<times> dc_iostream_t" where
  "dc_iostream_read io n =
     (if n \<le> length (rx io) then (DC_STATUS_SUCCESS, take n (rx io), io\<lparr>rx := drop n (rx io)\<rparr>)
      else (DC_STATUS_IO, [], io\<lparr>rx := []\<rparr>))"

definition dc_iostream_write ::
  "dc_iostream_t \<Rightarrow> byte list \<Rightarrow> dc_status_t \<times> dc_iostream_t" where
  "dc_iostream_write io bs = (DC_STATUS_SUCCESS, io\<lparr>tx := tx io @ bs\<rparr>)"

text \<open>
  \<^verbatim>\<open>struct cressi_goa_device_t\<close>: the stream and the 6-byte fingerprint (the base
  object carries only the context and the vtable, which no function here changes).
\<close>

record cressi_goa_device_t =
  iostream :: dc_iostream_t
  fingerprint :: "byte list"

subsection \<open>Utility primitives\<close>

text \<open>
  Modelled from the spec: \<^verbatim>\<open>checksum_crc16_ccitt\<close> (\<^verbatim>\<open>checksum.c\<close>, not part of this
  file) is CRC16-CCITT with polynomial 0x1021, most significant bit first, starting
  from the remainder \<open>init\<close> and xor-ing \<open>xorout\<close> into the result.
\<close>

fun crc16_ccitt_bits :: "nat \<Rightarrow> 16 word \<Rightarrow> 16 word" where
  "crc16_ccitt_bits 0 crc = crc"
| "crc16_ccitt_bits (Suc n) crc =
     crc16_ccitt_bits n (if bit crc 15 then push_bit 1 crc XOR 0x1021 else push_bit 1 crc)"

definition crc16_ccitt_byte :: "16 word \<Rightarrow> byte \<Rightarrow> 16 word" where
  "crc16_ccitt_byte crc b = crc16_ccitt_bits 8 (crc XOR push_bit 8 (ucast b))"

definition checksum_crc16_ccitt :: "byte list \<Rightarrow> 16 word \<Rightarrow> 16 word \<Rightarrow> 16 word" where
  "checksum_crc16_ccitt data init xorout = foldl crc16_ccitt_byte init data XOR xorout"

text \<open>
  Modelled from the spec: the integer decoders of \<^verbatim>\<open>array.c\<close> (not part of this
  file). The argument is the list of bytes starting at the pointer.
\<close>

definition array_uint16_le :: "byte list \<Rightarrow> 16 word" where
  "array_uint16_le data = ucast (data ! 0) OR push_bit 8 (ucast (data ! 1))"

definition array_uint32_le :: "byte list \<Rightarrow> 32 word" where
  "array_uint32_le data =
     ucast (data ! 0) OR push_bit 8 (ucast (data ! 1)) OR
     push_bit 16 (ucast (data ! 2)) OR push_bit 24 (ucast (data ! 3))"

text \<open>
  Modelled from the spec: \<^verbatim>\<open>dc_buffer_t\<close> (\<^verbatim>\<open>buffer.c\<close>, not part of this file) is a
  growable byte buffer, here the list of its bytes. The operations that allocate
  return \<open>None\<close> where the source returns 0; allocation does not fail in this model,
  and an insertion beyond the end is refused.
\<close>

type_synonym dc_buffer_t = "byte list"

definition dc_buffer_new :: "nat \<Rightarrow> dc_buffer_t option" where
  "dc_buffer_new capacity = Some []"

definition dc_buffer_clear :: "dc_buffer_t \<Rightarrow> dc_buffer_t" where
  "dc_buffer_clear buffer = []"

definition dc_buffer_append :: "dc_buffer_t \<Rightarrow> byte list \<Rightarrow> dc_buffer_t option" where
  "dc_buffer_append buffer data = Some (buffer @ data)"

definition dc_buffer_insert :: "dc_buffer_t \<Rightarrow> nat \<Rightarrow> byte list \<Rightarrow> dc_buffer_t option" where
  "dc_buffer_insert buffer offset data =
     (if offset > length buffer then None
      else Some (take offset buffer @ data @ drop offset buffer))"

subsection \<open>Framing: \<^verbatim>\<open>cressi_goa_device_send\<close> and \<^verbatim>\<open>cressi_goa_device_receive\<close>\<close>

text \<open>
  The packet that \<^verbatim>\<open>cressi_goa_device_send\<close> assembles: three header bytes, the
  size, the command, the payload, the checksum of \<^verbatim>\<open>packet + 3\<close> over \<open>size + 2\<close>
  bytes (low byte first) and the trailer. \<open>size + 8\<close> bytes are written.
\<close>

definition send_packet :: "byte \<Rightarrow> byte list \<Rightarrow> byte list" where
  "send_packet cmd data =
     (let size = length data;
          packet = [HEADER, HEADER, HEADER, of_nat size, cmd] @ data;
          crc = checksum_crc16_ccitt (take (size + 2) (drop 3 packet)) 0x0000 0x0000
      in packet @ [ucast (crc AND 0xFF), ucast (drop_bit 8 crc AND 0xFF), TRAILER])"

definition cressi_goa_device_send ::
  "cressi_goa_device_t \<Rightarrow> byte \<Rightarrow> byte list \<Rightarrow> dc_status_t \<times> cressi_goa_device_t" where
  "cressi_goa_device_send device cmd data =
     (let size = length data in
      if size > SZ_PACKET then (DC_STATUS_INVALIDARGS, device)
      else
        let packet = send_packet cmd data;
            (status, io) = dc_iostream_write (iostream device) (take (size + 8) packet)
        in if status \<noteq> DC_STATUS_SUCCESS then (status, device\<lparr>iostream := io\<rparr>)
           else (status, device\<lparr>iostream := io\<rparr>))"

text \<open>
  \<^verbatim>\<open>cressi_goa_device_receive\<close>. The output buffer may be absent (a null pointer):
  \<open>None\<close>. The packet array is the four header bytes followed by the \<open>length + 4\<close>
  bytes of the second read, so every index below is inside what was read.
\<close>

definition cressi_goa_device_receive ::
  "cressi_goa_device_t \<Rightarrow> dc_buffer_t option \<Rightarrow>
     dc_status_t \<times> cressi_goa_device_t \<times> dc_buffer_t option" where
  "cressi_goa_device_receive device output0 =
     (let output = map_option dc_buffer_clear output0;
          (status, head, io1) = dc_iostream_read (iostream device) 4
      in if status \<noteq> DC_STATUS_SUCCESS then (status, device\<lparr>iostream := io1\<rparr>, output)
         else if head ! 0 \<noteq> HEADER \<or> head ! 1 \<noteq> HEADER \<or> head ! 2 \<noteq> HEADER
           then (DC_STATUS_PROTOCOL, device\<lparr>iostream := io1\<rparr>, output)
         else
           let length = unat (head ! 3) in
           if length > SZ_PACKET then (DC_STATUS_PROTOCOL, device\<lparr>iostream := io1\<rparr>, output)
           else
             let (status, rest, io2) = dc_iostream_read io1 (length + 4) in
             if status \<noteq> DC_STATUS_SUCCESS then (status, device\<lparr>iostream := io2\<rparr>, output)
             else
               let packet = head @ rest in
               if packet ! (length + 7) \<noteq> TRAILER
                 then (DC_STATUS_PROTOCOL, device\<lparr>iostream := io2\<rparr>, output)
               else
                 let crc = array_uint16_le (drop (length + 5) packet);
                     ccrc = checksum_crc16_ccitt (take (length + 2) (drop 3 packet)) 0x0000 0x0000
                 in if crc \<noteq> ccrc then (DC_STATUS_PROTOCOL, device\<lparr>iostream := io2\<rparr>, output)
                    else
                      (case output of
                         Some buf \<Rightarrow>
                           if length \<noteq> 0 then
                             (case dc_buffer_append buf (take length (drop 5 packet)) of
                                None \<Rightarrow> (DC_STATUS_NOMEMORY, device\<lparr>iostream := io2\<rparr>, output)
                              | Some buf' \<Rightarrow> (status, device\<lparr>iostream := io2\<rparr>, Some buf'))
                           else (status, device\<lparr>iostream := io2\<rparr>, output)
                       | None \<Rightarrow> (status, device\<lparr>iostream := io2\<rparr>, output)))"

subsection \<open>Bulk transfer: \<^verbatim>\<open>cressi_goa_device_download\<close>\<close>

text \<open>
  \<^verbatim>\<open>dc_event_progress_t\<close> (declared in \<^verbatim>\<open>device.h\<close>). The progress pointer may be
  null: \<open>None\<close>. The events themselves (\<^verbatim>\<open>device_event_emit\<close>) only report the
  record to the application and are not part of the model.
\<close>

record dc_event_progress_t =
  current :: nat
  maximum :: nat

text \<open>
  The receive/acknowledge loop of \<^verbatim>\<open>cressi_goa_device_download\<close>, with its variables
  \<^verbatim>\<open>skip\<close>, \<^verbatim>\<open>size\<close> (here \<open>sz\<close>) and \<^verbatim>\<open>nbytes\<close> as arguments. A packet is
  \<open>3 + SZ_DATA + 2 = 517\<close> bytes. The sizes are \<^verbatim>\<open>unsigned int\<close>; \<^verbatim>\<open>size\<close> is at
  most \<open>2 + 65535\<close> and \<^verbatim>\<open>nbytes\<close> never exceeds it, so nothing wraps, and
  \<^verbatim>\<open>length - skip\<close> is taken with \<open>skip = 2\<close> only for the first packet, where
  \<open>length \<ge> 2\<close>.
\<close>

function download_loop ::
  "cressi_goa_device_t \<Rightarrow> dc_buffer_t \<Rightarrow> dc_event_progress_t option \<Rightarrow> nat \<Rightarrow>
     nat \<Rightarrow> nat \<Rightarrow> nat \<Rightarrow>
     dc_status_t \<times> cressi_goa_device_t \<times> dc_buffer_t \<times> dc_event_progress_t option" where
  "download_loop device buffer progress initial skip sz nbytes =
     (if nbytes < sz then
        (case dc_iostream_read (iostream device) (3 + SZ_DATA + 2) of
           (status, packet, io1) \<Rightarrow>
             if status \<noteq> DC_STATUS_SUCCESS
               then (status, device\<lparr>iostream := io1\<rparr>, buffer, progress)
             else if array_uint16_le (drop (3 + SZ_DATA + 2 - 2) packet) \<noteq>
                     checksum_crc16_ccitt (take (3 + SZ_DATA + 2 - 5) (drop 3 packet)) 0x0000 0x0000
               then (DC_STATUS_PROTOCOL, device\<lparr>iostream := io1\<rparr>, buffer, progress)
             else
               (case dc_iostream_write io1 [ACK] of
                  (status, io2) \<Rightarrow>
                    if status \<noteq> DC_STATUS_SUCCESS
                      then (status, device\<lparr>iostream := io2\<rparr>, buffer, progress)
                    else
                      let sz' = (if nbytes = 0 then sz + unat (array_uint16_le (drop 3 packet))
                                   else sz);
                          len = (if sz' - nbytes > SZ_DATA then SZ_DATA else sz' - nbytes)
                      in (case dc_buffer_append buffer (take (len - skip) (drop (3 + skip) packet)) of
                            None \<Rightarrow> (DC_STATUS_NOMEMORY, device\<lparr>iostream := io2\<rparr>, buffer, progress)
                          | Some buffer' \<Rightarrow>
                              download_loop (device\<lparr>iostream := io2\<rparr>) buffer'
                                (map_option (\<lambda>p. p\<lparr>current := initial + STEP (nbytes + len) sz'\<rparr>)
                                   progress)
                                initial 0 sz' (nbytes + len))))
      else (DC_STATUS_SUCCESS, device, buffer, progress))"
  by pat_completeness auto
termination
proof (relation "measures [\<lambda>(device, buffer, progress, initial, skip, sz, nbytes).
                             if nbytes = 0 then 1 else 0,
                           \<lambda>(device, buffer, progress, initial, skip, sz, nbytes).
                             sz - nbytes]", goal_cases)
  case 1
  show ?case by simp
next
  case 2
  then show ?case
    by (auto simp: SZ_DATA_def split: if_splits)
qed

declare download_loop.simps [simp del]

definition cressi_goa_device_download ::
  "cressi_goa_device_t \<Rightarrow> dc_buffer_t \<Rightarrow> dc_event_progress_t option \<Rightarrow>
     dc_status_t \<times> cressi_goa_device_t \<times> dc_buffer_t \<times> dc_event_progress_t option" where
  "cressi_goa_device_download device buffer0 progress0 =
     (let initial = (case progress0 of Some p \<Rightarrow> current p | None \<Rightarrow> 0);
          buffer = dc_buffer_clear buffer0
      in case download_loop device buffer progress0 initial 2 2 0 of
           (status, device1, buffer1, progress1) \<Rightarrow>
             if status \<noteq> DC_STATUS_SUCCESS then (status, device1, buffer1, progress1)
             else
               (case dc_iostream_read (iostream device1) 1 of
                  (status, end, io1) \<Rightarrow>
                    if status \<noteq> DC_STATUS_SUCCESS
                      then (status, device1\<lparr>iostream := io1\<rparr>, buffer1, progress1)
                    else if end ! 0 \<noteq> END
                      then (DC_STATUS_PROTOCOL, device1\<lparr>iostream := io1\<rparr>, buffer1, progress1)
                    else
                      (case dc_iostream_write io1 [ACK] of
                         (status, io2) \<Rightarrow>
                           if status \<noteq> DC_STATUS_SUCCESS
                             then (status, device1\<lparr>iostream := io2\<rparr>, buffer1, progress1)
                           else (status, device1\<lparr>iostream := io2\<rparr>, buffer1, progress1))))"

text \<open>
  Two notions used to state what a download delivers. \<open>packet_payloads bs n\<close> is the
  concatenation of the 512 payload bytes of the first \<open>n\<close> packets of the stream
  \<open>bs\<close>. \<open>device_packet payload\<close> is a packet as the download loop accepts it: three
  leading bytes, which the loop does not inspect, the payload, and the checksum of
  the payload, low byte first.
\<close>

fun packet_payloads :: "byte list \<Rightarrow> nat \<Rightarrow> byte list" where
  "packet_payloads bs 0 = []"
| "packet_payloads bs (Suc n) = take 512 (drop 3 bs) @ packet_payloads (drop 517 bs) n"

definition device_packet :: "byte list \<Rightarrow> byte list" where
  "device_packet payload =
     [0, 0, 0] @ payload @
     [ucast (checksum_crc16_ccitt payload 0 0 AND 0xFF),
      ucast (drop_bit 8 (checksum_crc16_ccitt payload 0 0) AND 0xFF)]"

subsection \<open>\<^verbatim>\<open>cressi_goa_device_transfer\<close>\<close>

definition cressi_goa_device_transfer ::
  "cressi_goa_device_t \<Rightarrow> byte \<Rightarrow> byte list \<Rightarrow> dc_buffer_t option \<Rightarrow> dc_buffer_t option \<Rightarrow>
     dc_event_progress_t option \<Rightarrow>
     dc_status_t \<times> cressi_goa_device_t \<times> dc_buffer_t option \<times> dc_buffer_t option \<times>
       dc_event_progress_t option" where
  "cressi_goa_device_transfer device cmd input outp buffer progress =
     (case cressi_goa_device_send device cmd input of
        (status, device1) \<Rightarrow>
          if status \<noteq> DC_STATUS_SUCCESS then (status, device1, outp, buffer, progress)
          else
            (case cressi_goa_device_receive device1 outp of
               (status, device2, outp') \<Rightarrow>
                 if status \<noteq> DC_STATUS_SUCCESS then (status, device2, outp', buffer, progress)
                 else
                   (case buffer of
                      Some b \<Rightarrow>
                        (case cressi_goa_device_download device2 b progress of
                           (status, device3, b', progress') \<Rightarrow>
                             if status \<noteq> DC_STATUS_SUCCESS
                               then (status, device3, outp', Some b', progress')
                             else (status, device3, outp', Some b', progress'))
                    | None \<Rightarrow> (status, device2, outp', buffer, progress))))"

subsection \<open>\<^verbatim>\<open>cressi_goa_device_set_fingerprint\<close>\<close>

text \<open>
  The arguments \<^verbatim>\<open>data\<close> and \<^verbatim>\<open>size\<close> are the list \<open>data\<close>, of length
  \<^verbatim>\<open>size\<close>. \<^verbatim>\<open>memcpy\<close> copies \<^verbatim>\<open>sizeof (device->fingerprint)\<close> = 6 bytes.
\<close>

definition cressi_goa_device_set_fingerprint ::
  "cressi_goa_device_t \<Rightarrow> byte list \<Rightarrow> dc_status_t \<times> cressi_goa_device_t" where
  "cressi_goa_device_set_fingerprint device data =
     (let size = length data in
      if size \<noteq> 0 \<and> size \<noteq> FP_SIZE then (DC_STATUS_INVALIDARGS, device)
      else if size \<noteq> 0 then (DC_STATUS_SUCCESS, device\<lparr>fingerprint := take FP_SIZE data\<rparr>)
      else (DC_STATUS_SUCCESS, device\<lparr>fingerprint := replicate FP_SIZE 0\<rparr>))"

subsection \<open>Identification: \<^verbatim>\<open>cressi_goa_irda_api_version\<close> and \<^verbatim>\<open>cressi_goa_read_id\<close>\<close>

text \<open>
  Reading an array outside its bounds and reading a variable that was never written
  are undefined behaviour in C. The model makes them results of their own, so that a
  function that would perform such a read returns \<open>Inl\<close> of the fault instead of a
  status.
\<close>

datatype fault = OutOfBounds | Uninitialised

text \<open>\<^verbatim>\<open>dc_event_devinfo_t\<close> (declared in \<^verbatim>\<open>device.h\<close>): three \<^verbatim>\<open>unsigned int\<close>.\<close>

record dc_event_devinfo_t =
  model :: "32 word"
  firmware :: "32 word"
  serial :: "32 word"

record cressi_goa_irda_api_conf =
  version :: byte
  idlen :: nat
  logbook_entry_len :: byte
  logbook_fp_offset :: nat
  cmd_logbook :: byte

definition version_support_on_model :: "bool list list" where
  "version_support_on_model =
     [[True,  True,  False, False, False, False, False, False, False, False, False],
      [True,  True,  False, False, False, False, False, False, False, False, False],
      [True,  True,  False, False, False, False, False, False, True,  False, False],
      [True,  True,  True,  True,  True,  True,  True,  True,  True,  True,  True],
      [True,  True,  False, True,  True,  False, False, False, True,  True,  False]]"

text \<open>
  The result is the version, or \<open>-1\<close>. The column index \<^verbatim>\<open>devinfo->model - 1\<close> is
  computed in \<^verbatim>\<open>unsigned int\<close>, so it wraps for model 0; the lookup is a read of the
  5 by 11 array and is out of bounds when the row or the column is.
\<close>

definition cressi_goa_irda_api_version :: "dc_event_devinfo_t \<Rightarrow> fault + int" where
  "cressi_goa_irda_api_version devinfo =
     (if model devinfo > 11 then Inr (- 1)
      else
        let v = (if firmware devinfo \<ge> 161 \<and> firmware devinfo \<le> 165 then Some 0
                 else if firmware devinfo \<ge> 166 \<and> firmware devinfo \<le> 169 then Some 1
                 else if firmware devinfo \<ge> 170 \<and> firmware devinfo \<le> 179 then Some 2
                 else if (firmware devinfo \<ge> 100 \<and> firmware devinfo \<le> 110)
                         \<or> firmware devinfo = 900 then Some 3
                 else if firmware devinfo \<ge> 200 \<and> firmware devinfo \<le> 205 then Some 4
                 else None)
        in case v of
             None \<Rightarrow> Inr (- 1)
           | Some n \<Rightarrow>
               let column = unat (model devinfo - 1) in
               if n < length version_support_on_model
                  \<and> column < length (version_support_on_model ! n)
               then (if \<not> version_support_on_model ! n ! column then Inr (- 1) else Inr (int n))
               else Inl OutOfBounds)"

definition version_conf :: "cressi_goa_irda_api_conf list" where
  "version_conf =
     [\<lparr>version = 0, idlen = 9, logbook_entry_len = of_nat SZ_HEADER,
       logbook_fp_offset = FP_OFFSET, cmd_logbook = CMD_LOGBOOK\<rparr>,
      \<lparr>version = 4, idlen = 11, logbook_entry_len = 15,
       logbook_fp_offset = 3, cmd_logbook = CMD_LOGBOOK_V4\<rparr>]"

text \<open>
  Modelled from the spec: the accessors of \<^verbatim>\<open>buffer.c\<close> on a buffer pointer that may
  be null: a null buffer has size 0 and no data.
\<close>

definition dc_buffer_get_size :: "dc_buffer_t option \<Rightarrow> nat" where
  "dc_buffer_get_size buffer = (case buffer of None \<Rightarrow> 0 | Some b \<Rightarrow> length b)"

definition dc_buffer_get_data :: "dc_buffer_t option \<Rightarrow> byte list" where
  "dc_buffer_get_data buffer = (case buffer of None \<Rightarrow> [] | Some b \<Rightarrow> b)"

text \<open>
  \<^verbatim>\<open>cressi_goa_read_id\<close>. The out-parameter \<^verbatim>\<open>conf\<close> is the third component of the
  result: \<open>Some\<close> of the configuration when \<^verbatim>\<open>*conf\<close> has been written, \<open>None\<close> when
  the function returns without writing it. The loop over \<^verbatim>\<open>version_conf\<close> takes the
  first entry whose \<^verbatim>\<open>idlen\<close> is the size of the answer. \<^verbatim>\<open>emit_events\<close> only
  selects whether the vendor and devinfo events are emitted.
\<close>

definition cressi_goa_read_id ::
  "cressi_goa_device_t \<Rightarrow> bool \<Rightarrow>
     fault + (dc_status_t \<times> cressi_goa_device_t \<times> cressi_goa_irda_api_conf option)" where
  "cressi_goa_read_id device emit_events =
     (case dc_buffer_new 11 of
        None \<Rightarrow> Inr (DC_STATUS_NOMEMORY, device, None)
      | Some id_new \<Rightarrow>
          (case cressi_goa_device_transfer device CMD_VERSION [] (Some id_new) None None of
             (status, device1, id_buf, _, _) \<Rightarrow>
               if status \<noteq> DC_STATUS_SUCCESS then Inr (status, device1, None)
               else
                 (case find (\<lambda>c. dc_buffer_get_size id_buf = idlen c) version_conf of
                    None \<Rightarrow> Inr (status, device1, None)
                  | Some conf_ \<Rightarrow>
                      let id_data = dc_buffer_get_data id_buf;
                          devinfo = \<lparr>model = ucast (id_data ! 4),
                                     firmware = ucast (array_uint16_le (drop 5 id_data)),
                                     serial = array_uint32_le (drop 0 id_data)\<rparr>
                      in (case cressi_goa_irda_api_version devinfo of
                            Inl f \<Rightarrow> Inl f
                          | Inr v \<Rightarrow>
                              if v = - 1 then Inr (DC_STATUS_UNSUPPORTED, device1, None)
                              else Inr (status, device1, Some (conf_\<lparr>version := of_int v\<rparr>))))))"

subsection \<open>Enumeration: \<^verbatim>\<open>cressi_goa_device_foreach\<close>\<close>

text \<open>
  A read of \<open>n\<close> bytes at \<open>offset\<close> of a buffer of known size, and \<^verbatim>\<open>memcmp (...) == 0\<close>
  on two such regions.
\<close>

definition mem_read :: "byte list \<Rightarrow> nat \<Rightarrow> nat \<Rightarrow> fault + byte list" where
  "mem_read data offset n =
     (if offset + n \<le> length data then Inr (take n (drop offset data)) else Inl OutOfBounds)"

definition memcmp_eq :: "byte list \<Rightarrow> nat \<Rightarrow> byte list \<Rightarrow> nat \<Rightarrow> nat \<Rightarrow> fault + bool" where
  "memcmp_eq a aoff b boff n =
     (case mem_read a aoff n of
        Inl f \<Rightarrow> Inl f
      | Inr x \<Rightarrow> (case mem_read b boff n of Inl f \<Rightarrow> Inl f | Inr y \<Rightarrow> Inr (x = y)))"

text \<open>
  The first loop of \<^verbatim>\<open>cressi_goa_device_foreach\<close> (``count the number of dives''),
  with \<^verbatim>\<open>offset\<close> and \<^verbatim>\<open>count\<close> as arguments. With an entry length of 0 the source
  does not leave the loop; the result \<open>None\<close> stands for that.
\<close>

partial_function (option) foreach_count ::
  "cressi_goa_irda_api_conf \<Rightarrow> byte list \<Rightarrow> byte list \<Rightarrow> nat \<Rightarrow> nat \<Rightarrow> (fault + nat) option" where
  "foreach_count conf logbook_data fp offset count =
     (if offset > unat (logbook_entry_len conf) then
        (case mem_read logbook_data (offset - unat (logbook_entry_len conf)) 2 of
           Inl f \<Rightarrow> Some (Inl f)
         | Inr number \<Rightarrow>
             if array_uint16_le number = 0 then Some (Inr count)
             else
               (case memcmp_eq logbook_data
                       (offset - unat (logbook_entry_len conf) + logbook_fp_offset conf)
                       fp 0 FP_SIZE of
                  Inl f \<Rightarrow> Some (Inl f)
                | Inr same \<Rightarrow>
                    if same then Some (Inr count)
                    else foreach_count conf logbook_data fp
                           (offset - unat (logbook_entry_len conf)) (count + 1)))
      else Some (Inr count))"

declare foreach_count.simps [code]

text \<open>
  The cross-check of the dive header against the logbook entry at \<open>offset\<close> (the body
  of \<^verbatim>\<open>if (conf.version != 4) ... else ...\<close>). The result is \<open>DC_STATUS_SUCCESS\<close> when
  the dive passes and \<open>DC_STATUS_DATAFORMAT\<close> when it is refused. The disjunction of
  the first branch is evaluated left to right and stops at the first true operand. In
  the second branch the two \<^verbatim>\<open>array_uint64_be\<close> reads feed the error message, and
  \<^verbatim>\<open>dive_data[14]\<close> is read for the debug message.
\<close>

definition foreach_check_header ::
  "cressi_goa_irda_api_conf \<Rightarrow> byte list \<Rightarrow> nat \<Rightarrow> byte list \<Rightarrow> fault + dc_status_t" where
  "foreach_check_header conf logbook_data offset dive_data =
     (let dive_size = length dive_data in
      if version conf \<noteq> 4 then
        if dive_size < SZ_HEADER - 5 then Inr DC_STATUS_DATAFORMAT
        else
          (case memcmp_eq dive_data 0 logbook_data (offset + 0) 2 of
             Inl f \<Rightarrow> Inl f
           | Inr same \<Rightarrow>
               if \<not> same then Inr DC_STATUS_DATAFORMAT
               else
                 (case memcmp_eq dive_data 2 logbook_data (offset + 7) (SZ_HEADER - 7) of
                    Inl f \<Rightarrow> Inl f
                  | Inr same' \<Rightarrow>
                      if \<not> same' then Inr DC_STATUS_DATAFORMAT else Inr DC_STATUS_SUCCESS))
      else
        (case mem_read logbook_data offset 2 of
           Inl f \<Rightarrow> Inl f
         | Inr e \<Rightarrow>
             (case mem_read dive_data 0 2 of
                Inl f \<Rightarrow> Inl f
              | Inr d \<Rightarrow>
                  if array_uint16_le d \<noteq> array_uint16_le e then Inr DC_STATUS_DATAFORMAT
                  else
                    (case memcmp_eq dive_data 4 logbook_data (offset + 3) 6 of
                       Inl f \<Rightarrow> Inl f
                     | Inr same \<Rightarrow>
                         if \<not> same then
                           (case mem_read dive_data 4 8 of
                              Inl f \<Rightarrow> Inl f
                            | Inr _ \<Rightarrow>
                                (case mem_read logbook_data (offset + 3) 8 of
                                   Inl f \<Rightarrow> Inl f
                                 | Inr _ \<Rightarrow> Inr DC_STATUS_DATAFORMAT))
                         else
                           (case mem_read dive_data 14 1 of
                              Inl f \<Rightarrow> Inl f
                            | Inr _ \<Rightarrow> Inr DC_STATUS_SUCCESS)))))"

text \<open>
  The state of the second loop (``download the dives''): the device, the dive
  buffer, the progress record, the \<^verbatim>\<open>userdata\<close> of the callback, the offset, and
  the list of the calls made to the callback so far (the record and the
  fingerprint slice handed over), oldest call first. The callback returns whether
  to go on (a non-zero \<^verbatim>\<open>int\<close>) and its updated \<^verbatim>\<open>userdata\<close>; a null callback is
  \<open>None\<close>.
\<close>

record 'u foreach_state =
  fs_device :: cressi_goa_device_t
  fs_dive :: dc_buffer_t
  fs_progress :: dc_event_progress_t
  fs_userdata :: 'u
  fs_offset :: nat
  fs_calls :: "(byte list \<times> byte list) list"

type_synonym 'u dc_dive_callback_t = "byte list \<Rightarrow> byte list \<Rightarrow> 'u \<Rightarrow> bool \<times> 'u"

text \<open>Subtraction in \<^verbatim>\<open>unsigned int\<close>.\<close>

definition u32_sub :: "nat \<Rightarrow> nat \<Rightarrow> nat" where
  "u32_sub a b = (a + 2 ^ 32 - b mod 2 ^ 32) mod 2 ^ 32"

text \<open>
  One iteration of the second loop. The first component of the result is \<open>None\<close> when
  the loop goes on, and \<open>Some\<close> of the status when the loop is left (an error, or
  the callback's request to stop).
\<close>

definition foreach_dive ::
  "cressi_goa_irda_api_conf \<Rightarrow> byte list \<Rightarrow> 'u dc_dive_callback_t option \<Rightarrow> 'u foreach_state \<Rightarrow>
     fault + (dc_status_t option \<times> 'u foreach_state)" where
  "foreach_dive conf logbook_data callback s =
     (let offset = u32_sub (fs_offset s) (unat (logbook_entry_len conf)) in
      case mem_read logbook_data offset 2 of
        Inl f \<Rightarrow> Inl f
      | Inr number \<Rightarrow>
          (case cressi_goa_device_transfer (fs_device s) CMD_DIVE number None (Some (fs_dive s))
                  (Some (fs_progress s)) of
             (status, device1, _, dive1, progress1) \<Rightarrow>
               let s1 = s\<lparr>fs_device := device1, fs_dive := dc_buffer_get_data dive1,
                          fs_progress := (case progress1 of Some p \<Rightarrow> p | None \<Rightarrow> fs_progress s),
                          fs_offset := offset\<rparr>
               in if status \<noteq> DC_STATUS_SUCCESS then Inr (Some status, s1)
                  else
                    (case foreach_check_header conf logbook_data offset (fs_dive s1) of
                       Inl f \<Rightarrow> Inl f
                     | Inr st \<Rightarrow>
                         if st \<noteq> DC_STATUS_SUCCESS then Inr (Some st, s1)
                         else
                           (case dc_buffer_insert (fs_dive s1) 0
                                   [0xdc, 0xdc, version conf, logbook_entry_len conf] of
                              None \<Rightarrow> Inr (Some DC_STATUS_NOMEMORY, s1)
                            | Some dive2 \<Rightarrow>
                                (case mem_read logbook_data offset (unat (logbook_entry_len conf)) of
                                   Inl f \<Rightarrow> Inl f
                                 | Inr entry \<Rightarrow>
                                     (case dc_buffer_insert dive2 4 entry of
                                        None \<Rightarrow> Inr (Some DC_STATUS_NOMEMORY, s1\<lparr>fs_dive := dive2\<rparr>)
                                      | Some dive3 \<Rightarrow>
                                          (case callback of
                                             None \<Rightarrow> Inr (None, s1\<lparr>fs_dive := dive3\<rparr>)
                                           | Some cb \<Rightarrow>
                                               let fp = take FP_SIZE
                                                          (drop (4 + logbook_fp_offset conf) dive3);
                                                   (continue, userdata') = cb dive3 fp (fs_userdata s1);
                                                   s2 = s1\<lparr>fs_dive := dive3, fs_userdata := userdata',
                                                           fs_calls := fs_calls s1 @ [(dive3, fp)]\<rparr>
                                               in if \<not> continue then Inr (Some status, s2)
                                                  else Inr (None, s2))))))))"

function foreach_dives ::
  "cressi_goa_irda_api_conf \<Rightarrow> byte list \<Rightarrow> 'u dc_dive_callback_t option \<Rightarrow> nat \<Rightarrow>
     'u foreach_state \<Rightarrow> nat \<Rightarrow> fault + (dc_status_t \<times> 'u foreach_state)" where
  "foreach_dives conf logbook_data callback count s i =
     (if i < count then
        (case foreach_dive conf logbook_data callback s of
           Inl f \<Rightarrow> Inl f
         | Inr (Some status, s') \<Rightarrow> Inr (status, s')
         | Inr (None, s') \<Rightarrow> foreach_dives conf logbook_data callback count s' (i + 1))
      else Inr (DC_STATUS_SUCCESS, s))"
  by pat_completeness auto
termination
  by (relation "measure (\<lambda>(conf, logbook_data, callback, count, s, i). count - i)") auto

declare foreach_dives.simps [simp del]

text \<open>
  Modelled from the spec: \<^verbatim>\<open>EVENT_PROGRESS_INITIALIZER\<close> (\<^verbatim>\<open>device-private.h\<close>, not
  part of this file) is the progress record ``0 of unknown maximum''.
\<close>

definition EVENT_PROGRESS_INITIALIZER :: dc_event_progress_t where
  "EVENT_PROGRESS_INITIALIZER = \<lparr>current = 0, maximum = 2 ^ 32 - 1\<rparr>"

text \<open>
  \<^verbatim>\<open>cressi_goa_device_foreach\<close> from the point where the logbook has been downloaded:
  the count, the new progress maximum, the dive buffer and the second loop. The
  result is \<open>None\<close> when the first loop does not end.
\<close>

definition foreach_logbook ::
  "cressi_goa_irda_api_conf \<Rightarrow> byte list \<Rightarrow> cressi_goa_device_t \<Rightarrow> dc_event_progress_t \<Rightarrow>
     'u dc_dive_callback_t option \<Rightarrow> 'u \<Rightarrow>
     (fault + (dc_status_t \<times> cressi_goa_device_t \<times> 'u \<times> (byte list \<times> byte list) list)) option" where
  "foreach_logbook conf logbook_data device progress callback userdata =
     (let logbook_size = length logbook_data in
      case foreach_count conf logbook_data (fingerprint device) (logbook_size mod 2 ^ 32) 0 of
        None \<Rightarrow> None
      | Some (Inl f) \<Rightarrow> Some (Inl f)
      | Some (Inr count) \<Rightarrow>
          (case dc_buffer_new 4096 of
             None \<Rightarrow> Some (Inr (DC_STATUS_NOMEMORY, device, userdata, []))
           | Some dive \<Rightarrow>
               (case foreach_dives conf logbook_data callback count
                       \<lparr>fs_device = device, fs_dive = dive,
                        fs_progress = progress\<lparr>maximum := (count + 1) * NSTEPS\<rparr>,
                        fs_userdata = userdata, fs_offset = logbook_size mod 2 ^ 32,
                        fs_calls = []\<rparr> 0 of
                  Inl f \<Rightarrow> Some (Inl f)
                | Inr (status, s) \<Rightarrow>
                    Some (Inr (status, fs_device s, fs_userdata s, fs_calls s)))))"

text \<open>
  \<^verbatim>\<open>cressi_goa_device_foreach\<close>. The local \<^verbatim>\<open>conf\<close> is written only by
  \<^verbatim>\<open>cressi_goa_read_id\<close>; when that returns success without writing it, the next
  statement reads it uninitialised.
\<close>

definition cressi_goa_device_foreach ::
  "cressi_goa_device_t \<Rightarrow> 'u dc_dive_callback_t option \<Rightarrow> 'u \<Rightarrow>
     (fault + (dc_status_t \<times> cressi_goa_device_t \<times> 'u \<times> (byte list \<times> byte list) list)) option" where
  "cressi_goa_device_foreach device callback userdata =
     (case cressi_goa_read_id device False of
        Inl f \<Rightarrow> Some (Inl f)
      | Inr (status, device1, conf_written) \<Rightarrow>
          if status \<noteq> DC_STATUS_SUCCESS then Some (Inr (status, device1, userdata, []))
          else
            (case conf_written of
               None \<Rightarrow> Some (Inl Uninitialised)
             | Some conf \<Rightarrow>
                 (case dc_buffer_new 4096 of
                    None \<Rightarrow> Some (Inr (DC_STATUS_NOMEMORY, device1, userdata, []))
                  | Some logbook \<Rightarrow>
                      (case cressi_goa_device_transfer device1 (cmd_logbook conf) [] None
                              (Some logbook) (Some EVENT_PROGRESS_INITIALIZER) of
                         (status, device2, _, logbook1, progress1) \<Rightarrow>
                           if status \<noteq> DC_STATUS_SUCCESS
                             then Some (Inr (status, device2, userdata, []))
                           else
                             foreach_logbook conf (dc_buffer_get_data logbook1) device2
                               (case progress1 of Some p \<Rightarrow> p | None \<Rightarrow> EVENT_PROGRESS_INITIALIZER)
                               callback userdata))))"

section \<open>Properties\<close>

text \<open>
  C8. \<^verbatim>\<open>cressi_goa_device_set_fingerprint\<close> accepts only the sizes 0 and 6. Any other
  size returns \<open>DC_STATUS_INVALIDARGS\<close> and leaves the device as it was; size 6 stores
  exactly the six given bytes; size 0 stores six zero bytes; the stream is the same
  in every case.
\<close>

theorem set_fingerprint_sizes:
  "cressi_goa_device_set_fingerprint device data =
     (if length data = 6 then (DC_STATUS_SUCCESS, device\<lparr>fingerprint := data\<rparr>)
      else if length data = 0 then (DC_STATUS_SUCCESS, device\<lparr>fingerprint := [0, 0, 0, 0, 0, 0]\<rparr>)
      else (DC_STATUS_INVALIDARGS, device))
   \<and> iostream (snd (cressi_goa_device_set_fingerprint device data)) = iostream device"
  by (simp add: cressi_goa_device_set_fingerprint_def FP_SIZE_def Let_def
      numeral_eq_Suc)

subsection \<open>Framing\<close>

lemma mask8: "(0xFF :: 16 word) = mask 8"
  by (simp add: mask_eq_exp_minus_1)

lemma array_uint16_le_bytes:
  "array_uint16_le (ucast (crc AND 0xFF) # ucast (drop_bit 8 crc AND 0xFF) # xs) = (crc :: 16 word)"
  unfolding array_uint16_le_def mask8
  apply (rule bit_word_eqI)
  apply (auto simp add: bit_simps)
  done

lemma array_uint16_le_Cons2: "array_uint16_le (a # b # xs) = array_uint16_le [a, b]"
  by (simp add: array_uint16_le_def)

lemma length_send_packet: "length (send_packet cmd data) = length data + 8"
  by (simp add: send_packet_def Let_def)

lemma receive_parts:
  assumes rx: "rx (iostream dev) = h0 # h1 # h2 # l # c # p @ lo # hi # t # rest"
    and len: "length p = unat l"
  shows "cressi_goa_device_receive dev outp =
    (if h0 \<noteq> HEADER \<or> h1 \<noteq> HEADER \<or> h2 \<noteq> HEADER \<or> unat l > 12
       then (DC_STATUS_PROTOCOL,
             dev\<lparr>iostream := (iostream dev)\<lparr>rx := c # p @ lo # hi # t # rest\<rparr>\<rparr>,
             map_option (\<lambda>_. []) outp)
     else if t \<noteq> TRAILER \<or> array_uint16_le [lo, hi] \<noteq> checksum_crc16_ccitt (l # c # p) 0 0
       then (DC_STATUS_PROTOCOL, dev\<lparr>iostream := (iostream dev)\<lparr>rx := rest\<rparr>\<rparr>,
             map_option (\<lambda>_. []) outp)
     else (DC_STATUS_SUCCESS, dev\<lparr>iostream := (iostream dev)\<lparr>rx := rest\<rparr>\<rparr>,
           map_option (\<lambda>_. p) outp))"
proof -
  let ?body = "c # p @ lo # hi # t # rest"
  let ?pkt = "[h0, h1, h2, l] @ c # p @ [lo, hi, t]"
  have r1: "dc_iostream_read (iostream dev) 4 =
      (DC_STATUS_SUCCESS, [h0, h1, h2, l], (iostream dev)\<lparr>rx := ?body\<rparr>)"
    by (simp add: dc_iostream_read_def rx)
  have r2: "dc_iostream_read ((iostream dev)\<lparr>rx := ?body\<rparr>) (unat l + 4) =
      (DC_STATUS_SUCCESS, c # p @ [lo, hi, t], (iostream dev)\<lparr>rx := rest\<rparr>)"
    by (simp add: dc_iostream_read_def len [symmetric] take_Cons' drop_Cons')
  have hd: "[h0, h1, h2, l] ! 0 = h0" "[h0, h1, h2, l] ! 1 = h1" "[h0, h1, h2, l] ! 2 = h2"
      "[h0, h1, h2, l] ! 3 = l"
    by simp_all
  have pk: "?pkt = ([h0, h1, h2, l, c] @ p) @ [lo, hi, t]"
    by simp
  have tr: "?pkt ! (unat l + 7) = t"
    by (subst pk, subst nth_append) (simp add: len [symmetric])
  have "drop (unat l + 5) ?pkt = [lo, hi, t]"
    by (simp add: len [symmetric] drop_Cons')
  then have crc: "array_uint16_le (drop (unat l + 5) ?pkt) = array_uint16_le [lo, hi]"
    by (simp only: array_uint16_le_Cons2 [of lo hi "[t]"])
  have reg: "take (unat l + 2) (drop 3 ?pkt) = l # c # p"
    by (simp add: len [symmetric] drop_Cons' take_Cons')
  have pay: "take (unat l) (drop 5 ?pkt) = p"
    by (simp add: len [symmetric] drop_Cons' take_Cons')
  have p0: "unat l = 0 \<Longrightarrow> p = []"
    using len by simp
  have clr: "map_option dc_buffer_clear outp = map_option (\<lambda>_. []) outp"
    by (cases "outp") (simp_all add: dc_buffer_clear_def)
  consider (hdr) "h0 \<noteq> HEADER \<or> h1 \<noteq> HEADER \<or> h2 \<noteq> HEADER"
    | (big) "h0 = HEADER" "h1 = HEADER" "h2 = HEADER" "unat l > 12"
    | (ok) "h0 = HEADER" "h1 = HEADER" "h2 = HEADER" "\<not> unat l > 12"
    by blast
  then show ?thesis
  proof cases
    case hdr
    then show ?thesis
      unfolding cressi_goa_device_receive_def r1 Let_def split hd clr
      by auto
  next
    case big
    then show ?thesis
      unfolding cressi_goa_device_receive_def r1 Let_def split hd clr
      by (simp add: SZ_PACKET_def)
  next
    case ok
    show ?thesis
      unfolding cressi_goa_device_receive_def r1 Let_def split hd clr
      apply (simp only: r2 split tr crc reg pay SZ_PACKET_def)
      using ok p0 apply (cases "outp")
       apply simp
      apply (auto simp add: dc_buffer_append_def)
      done
  qed
qed


lemma send_packet_parts:
  "send_packet cmd data =
     HEADER # HEADER # HEADER # of_nat (length data) # cmd # data @
       ucast (checksum_crc16_ccitt (of_nat (length data) # cmd # data) 0 0 AND 0xFF) #
       ucast (drop_bit 8 (checksum_crc16_ccitt (of_nat (length data) # cmd # data) 0 0) AND 0xFF) #
       [TRAILER]"
  by (simp add: send_packet_def Let_def)

lemma unat_of_nat_small: "n \<le> 12 \<Longrightarrow> unat (of_nat n :: byte) = n"
  by (simp add: unat_of_nat)

lemma receive_send_packet:
  assumes "length data \<le> 12" and "rx (iostream peer) = send_packet cmd data @ rest"
  shows "cressi_goa_device_receive peer outp =
     (DC_STATUS_SUCCESS, peer\<lparr>iostream := (iostream peer)\<lparr>rx := rest\<rparr>\<rparr>,
      map_option (\<lambda>_. data) outp)"
proof -
  let ?l = "of_nat (length data) :: byte"
  let ?crc = "checksum_crc16_ccitt (?l # cmd # data) 0 0"
  have n: "length data = unat ?l"
    using assms(1) by (simp add: unat_of_nat_small)
  have rx: "rx (iostream peer) = HEADER # HEADER # HEADER # ?l # cmd # data @
      ucast (?crc AND 0xFF) # ucast (drop_bit 8 ?crc AND 0xFF) # TRAILER # rest"
    by (simp add: assms(2) send_packet_parts)
  have le: "\<not> 12 < unat ?l"
    using assms(1) n by simp
  show ?thesis
    by (simp only: receive_parts [OF rx n] array_uint16_le_bytes le) simp
qed

lemma send_writes_packet:
  "length data \<le> 12 \<Longrightarrow>
   cressi_goa_device_send dev cmd data =
     (DC_STATUS_SUCCESS, dev\<lparr>iostream := (iostream dev)\<lparr>tx := tx (iostream dev) @ send_packet cmd data\<rparr>\<rparr>)"
  by (simp add: cressi_goa_device_send_def Let_def SZ_PACKET_def dc_iostream_write_def
      length_send_packet)

lemma send_packet_region:
  "take (length data + 2) (drop 3 (send_packet cmd data)) = of_nat (length data) # cmd # data"
  by (simp add: send_packet_parts)

lemma send_packet_crc:
  "array_uint16_le (drop (length data + 5) (send_packet cmd data)) =
     checksum_crc16_ccitt (of_nat (length data) # cmd # data) 0 0"
  by (simp add: send_packet_parts drop_Cons' array_uint16_le_bytes)

lemma length_three: "length xs = 3 \<Longrightarrow> \<exists>a b c. xs = [a, b, c]"
  by (auto simp: length_Suc_conv numeral_eq_Suc)

lemma frame_parts:
  assumes "length pkt = unat (pkt ! 3) + 8"
  obtains h0 h1 h2 l c p lo hi t where
    "pkt = h0 # h1 # h2 # l # c # p @ [lo, hi, t]" "length p = unat l"
proof -
  obtain h0 h1 h2 l c r where pkt: "pkt = h0 # h1 # h2 # l # c # r"
    using assms by (auto simp: length_Suc_conv numeral_eq_Suc)
  then have lr: "length r = unat l + 3"
    using assms by simp
  then have "length (drop (unat l) r) = 3"
    by simp
  then obtain lo hi t where d: "drop (unat l) r = [lo, hi, t]"
    using length_three by blast
  have "r = take (unat l) r @ [lo, hi, t]"
    using d append_take_drop_id [of "unat l" r] by simp
  moreover have "length (take (unat l) r) = unat l"
    using lr by simp
  ultimately show thesis
    using that pkt by blast
qed


text \<open>
  C6. For an incoming frame \<open>pkt\<close> that arrives in full (its length is that of a frame
  with its length byte), \<^verbatim>\<open>cressi_goa_device_receive\<close> returns \<open>DC_STATUS_PROTOCOL\<close>
  when one of the three header bytes is not 0xAA, the length byte exceeds 12, the
  trailer is not 0x55, or the stored little-endian checksum differs from the
  CRC16-CCITT of length, command and payload; otherwise it returns success with
  exactly the \<open>length\<close> payload bytes (none when the length byte is 0).
\<close>

theorem receive_frame_checks:
  assumes rx: "rx (iostream dev) = pkt @ rest"
    and len: "length pkt = unat (pkt ! 3) + 8"
  shows "cressi_goa_device_receive dev (Some buf) =
    (if pkt ! 0 \<noteq> HEADER \<or> pkt ! 1 \<noteq> HEADER \<or> pkt ! 2 \<noteq> HEADER \<or> unat (pkt ! 3) > 12
       then (DC_STATUS_PROTOCOL,
             dev\<lparr>iostream := (iostream dev)\<lparr>rx := drop 4 pkt @ rest\<rparr>\<rparr>, Some [])
     else if pkt ! (unat (pkt ! 3) + 7) \<noteq> TRAILER \<or>
             array_uint16_le (drop (unat (pkt ! 3) + 5) pkt) \<noteq>
               checksum_crc16_ccitt (take (unat (pkt ! 3) + 2) (drop 3 pkt)) 0 0
       then (DC_STATUS_PROTOCOL, dev\<lparr>iostream := (iostream dev)\<lparr>rx := rest\<rparr>\<rparr>, Some [])
     else (DC_STATUS_SUCCESS, dev\<lparr>iostream := (iostream dev)\<lparr>rx := rest\<rparr>\<rparr>,
           Some (take (unat (pkt ! 3)) (drop 5 pkt))))
    \<and> length (take (unat (pkt ! 3)) (drop 5 pkt)) = unat (pkt ! 3)"
proof -
  from len obtain h0 h1 h2 l c p lo hi t where
    pkt: "pkt = h0 # h1 # h2 # l # c # p @ [lo, hi, t]" and lp: "length p = unat l"
    by (rule frame_parts)
  have rx': "rx (iostream dev) = h0 # h1 # h2 # l # c # p @ lo # hi # t # rest"
    by (simp add: rx pkt)
  have i: "pkt ! 0 = h0" "pkt ! 1 = h1" "pkt ! 2 = h2" "pkt ! 3 = l"
    by (simp_all add: pkt)
  have pk: "pkt = ([h0, h1, h2, l, c] @ p) @ [lo, hi, t]"
    by (simp add: pkt)
  have tr: "pkt ! (unat l + 7) = t"
    by (subst pk, subst nth_append) (simp add: lp [symmetric])
  have "drop (unat l + 5) pkt = [lo, hi, t]"
    by (simp add: pkt lp [symmetric] drop_Cons')
  then have crc: "array_uint16_le (drop (unat l + 5) pkt) = array_uint16_le [lo, hi]"
    by (simp only: array_uint16_le_Cons2 [of lo hi "[t]"])
  have reg: "take (unat l + 2) (drop 3 pkt) = l # c # p"
    by (simp add: pkt lp [symmetric] drop_Cons' take_Cons')
  have pay: "take (unat l) (drop 5 pkt) = p"
    by (simp add: pkt lp [symmetric] drop_Cons' take_Cons')
  have d4: "drop 4 pkt @ rest = c # p @ lo # hi # t # rest"
    by (simp add: pkt)
  show ?thesis
    unfolding receive_parts [OF rx' lp] i tr crc reg pay d4
    by (simp add: lp)
qed

theorem receive_frame_checks_witness:
  "rx (iostream \<lparr>iostream = \<lparr>rx = [0xAA, 0xAA, 0xAA, 0x02, 0x22, 0x01, 0x00, 0xFF, 0x36, 0x55, 0x07],
         tx = []\<rparr>, fingerprint = [0, 0, 0, 0, 0, 0]\<rparr>) =
     [0xAA, 0xAA, 0xAA, 0x02, 0x22, 0x01, 0x00, 0xFF, 0x36, 0x55] @ [0x07]
   \<and> cressi_goa_device_receive
        \<lparr>iostream = \<lparr>rx = [0xAA, 0xAA, 0xAA, 0x02, 0x22, 0x01, 0x00, 0xFF, 0x36, 0x55, 0x07],
           tx = []\<rparr>, fingerprint = [0, 0, 0, 0, 0, 0]\<rparr> (Some [0x09]) =
      (DC_STATUS_SUCCESS,
       \<lparr>iostream = \<lparr>rx = [0x07], tx = []\<rparr>, fingerprint = [0, 0, 0, 0, 0, 0]\<rparr>,
       Some [0x01, 0x00])
   \<and> cressi_goa_device_receive
        \<lparr>iostream = \<lparr>rx = [0xAA, 0xAA, 0xAA, 0x02, 0x22, 0x01, 0x08, 0xFF, 0x36, 0x55, 0x07],
           tx = []\<rparr>, fingerprint = [0, 0, 0, 0, 0, 0]\<rparr> (Some [0x09]) =
      (DC_STATUS_PROTOCOL,
       \<lparr>iostream = \<lparr>rx = [0x07], tx = []\<rparr>, fingerprint = [0, 0, 0, 0, 0, 0]\<rparr>,
       Some [])"
proof -
  have crc1: "checksum_crc16_ccitt [0x02, 0x22, 0x01, 0x00] 0 0 = 0x36FF"
    by code_simp
  have crc2: "checksum_crc16_ccitt [0x02, 0x22, 0x01, 0x08] 0 0 \<noteq> 0x36FF"
    by code_simp
  have le: "array_uint16_le [0xFF, 0x36, 0x55] = 0x36FF"
    by code_simp
  show ?thesis
    using receive_frame_checks [where pkt = "[0xAA, 0xAA, 0xAA, 0x02, 0x22, 0x01, 0x00, 0xFF, 0x36, 0x55]"
        and rest = "[0x07]" and buf = "[0x09]" and dev = "\<lparr>iostream = \<lparr>rx =
          [0xAA, 0xAA, 0xAA, 0x02, 0x22, 0x01, 0x00, 0xFF, 0x36, 0x55, 0x07],
         tx = []\<rparr>, fingerprint = [0, 0, 0, 0, 0, 0]\<rparr>"]
      receive_frame_checks [where pkt = "[0xAA, 0xAA, 0xAA, 0x02, 0x22, 0x01, 0x08, 0xFF, 0x36, 0x55]"
        and rest = "[0x07]" and buf = "[0x09]" and dev = "\<lparr>iostream = \<lparr>rx =
          [0xAA, 0xAA, 0xAA, 0x02, 0x22, 0x01, 0x08, 0xFF, 0x36, 0x55, 0x07],
         tx = []\<rparr>, fingerprint = [0, 0, 0, 0, 0, 0]\<rparr>"]
    by (simp add: crc1 crc2 le HEADER_def TRAILER_def)
qed

text \<open>
  C7. For every command and every payload of at most 12 bytes,
  \<^verbatim>\<open>cressi_goa_device_send\<close> writes the packet \<open>send_packet cmd data\<close>; the two checksum
  bytes in it, decoded as the receive side does, are the CRC16-CCITT that the
  receive side recomputes over the same region of the packet; and
  \<^verbatim>\<open>cressi_goa_device_receive\<close> on a stream that delivers exactly these bytes accepts
  the frame and returns the payload.
\<close>

theorem send_receive_round_trip:
  assumes "length data \<le> 12"
  shows "cressi_goa_device_send dev cmd data =
      (DC_STATUS_SUCCESS,
       dev\<lparr>iostream := (iostream dev)\<lparr>tx := tx (iostream dev) @ send_packet cmd data\<rparr>\<rparr>)
    \<and> array_uint16_le (drop (length data + 5) (send_packet cmd data)) =
        checksum_crc16_ccitt (take (length data + 2) (drop 3 (send_packet cmd data))) 0 0
    \<and> cressi_goa_device_receive
        (peer\<lparr>iostream := \<lparr>rx = send_packet cmd data @ rest, tx = sent\<rparr>\<rparr>) (Some buf) =
      (DC_STATUS_SUCCESS, peer\<lparr>iostream := \<lparr>rx = rest, tx = sent\<rparr>\<rparr>, Some data)"
proof -
  let ?peer = "peer\<lparr>iostream := \<lparr>rx = send_packet cmd data @ rest, tx = sent\<rparr>\<rparr>"
  have "rx (iostream ?peer) = send_packet cmd data @ rest"
    by simp
  from receive_send_packet [OF assms this, of "Some buf"]
  have "cressi_goa_device_receive ?peer (Some buf) =
      (DC_STATUS_SUCCESS, peer\<lparr>iostream := \<lparr>rx = rest, tx = sent\<rparr>\<rparr>, Some data)"
    by simp
  then show ?thesis
    using assms by (simp only: send_writes_packet send_packet_region send_packet_crc)
qed

lemma send_packet_example:
  "send_packet 0x22 [0x01, 0x00] = [0xAA, 0xAA, 0xAA, 0x02, 0x22, 0x01, 0x00, 0xFF, 0x36, 0x55]"
  by code_simp

theorem send_receive_round_trip_witness:
  "length [0x01, 0x00 :: byte] \<le> 12
   \<and> cressi_goa_device_send \<lparr>iostream = \<lparr>rx = [], tx = []\<rparr>, fingerprint = [0,0,0,0,0,0]\<rparr>
        0x22 [0x01, 0x00] =
      (DC_STATUS_SUCCESS,
       \<lparr>iostream = \<lparr>rx = [], tx = [0xAA, 0xAA, 0xAA, 0x02, 0x22, 0x01, 0x00, 0xFF, 0x36, 0x55]\<rparr>,
        fingerprint = [0,0,0,0,0,0]\<rparr>)
   \<and> cressi_goa_device_receive
        \<lparr>iostream = \<lparr>rx = [0xAA, 0xAA, 0xAA, 0x02, 0x22, 0x01, 0x00, 0xFF, 0x36, 0x55], tx = []\<rparr>,
         fingerprint = [0,0,0,0,0,0]\<rparr> (Some []) =
      (DC_STATUS_SUCCESS, \<lparr>iostream = \<lparr>rx = [], tx = []\<rparr>, fingerprint = [0,0,0,0,0,0]\<rparr>,
       Some [0x01, 0x00])"
  using send_receive_round_trip [where data = "[0x01, 0x00]" and cmd = "0x22"
      and dev = "\<lparr>iostream = \<lparr>rx = [], tx = []\<rparr>, fingerprint = [0,0,0,0,0,0]\<rparr>"
      and peer = "\<lparr>iostream = \<lparr>rx = [], tx = []\<rparr>, fingerprint = [0,0,0,0,0,0]\<rparr>"
      and rest = "[]" and sent = "[]" and buf = "[]"]
  by (simp add: send_packet_example)



subsection \<open>Bulk transfer\<close>

lemma download_loop_unfold:
  assumes "nbytes < sz"
  shows "download_loop device buffer progress initial skip sz nbytes =
    (if length (rx (iostream device)) < 517
       then (DC_STATUS_IO, device\<lparr>iostream := (iostream device)\<lparr>rx := []\<rparr>\<rparr>, buffer, progress)
     else if array_uint16_le (drop 515 (take 517 (rx (iostream device)))) \<noteq>
             checksum_crc16_ccitt (take 512 (drop 3 (take 517 (rx (iostream device))))) 0 0
       then (DC_STATUS_PROTOCOL,
             device\<lparr>iostream := (iostream device)\<lparr>rx := drop 517 (rx (iostream device))\<rparr>\<rparr>,
             buffer, progress)
     else
       let sz' = (if nbytes = 0
                  then sz + unat (array_uint16_le (drop 3 (take 517 (rx (iostream device))))) else sz);
           len = min 512 (sz' - nbytes)
       in download_loop
            (device\<lparr>iostream := (iostream device)\<lparr>rx := drop 517 (rx (iostream device)),
                                                  tx := tx (iostream device) @ [ACK]\<rparr>\<rparr>)
            (buffer @ take (len - skip) (drop (3 + skip) (take 517 (rx (iostream device)))))
            (map_option (\<lambda>p. p\<lparr>current := initial + STEP (nbytes + len) sz'\<rparr>) progress)
            initial 0 sz' (nbytes + len))"
proof -
  let ?rx = "rx (iostream device)"
  have rd: "dc_iostream_read (iostream device) (3 + SZ_DATA + 2) =
      (if length ?rx < 517 then (DC_STATUS_IO, [], (iostream device)\<lparr>rx := []\<rparr>)
       else (DC_STATUS_SUCCESS, take 517 ?rx, (iostream device)\<lparr>rx := drop 517 ?rx\<rparr>))"
    by (simp add: dc_iostream_read_def SZ_DATA_def)
  have wr: "\<And>io. dc_iostream_write io [ACK] = (DC_STATUS_SUCCESS, io\<lparr>tx := tx io @ [ACK]\<rparr>)"
    by (simp add: dc_iostream_write_def)
  have k: "3 + SZ_DATA + 2 - 2 = 515" "3 + SZ_DATA + 2 - 5 = 512"
    by (simp_all add: SZ_DATA_def)
  have mn: "\<And>x. (if SZ_DATA < x then SZ_DATA else x) = min 512 x"
    by (simp add: SZ_DATA_def min_def)
  show ?thesis
  proof (cases "length ?rx < 517")
    case True
    show ?thesis
      apply (subst download_loop.simps)
      apply (simp only: assms if_True rd k)
      using True apply simp
      done
  next
    case False
    show ?thesis
      apply (subst download_loop.simps)
      apply (simp only: assms if_True rd k wr mn)
      using False apply (simp add: dc_buffer_append_def Let_def)
      done
  qed
qed

lemma ceil_step:
  fixes d :: nat
  assumes "0 < d"
  shows "(d + 511) div 512 = Suc ((d - min 512 d + 511) div 512)"
proof (cases "d \<le> 512")
  case True
  with assms have "(d + 511) div 512 = 1"
    by simp
  with True show ?thesis
    by (simp add: min_def)
next
  case False
  then have "d + 511 = (d - 512 + 511) + 512"
    by simp
  then have "(d + 511) div 512 = Suc ((d - 512 + 511) div 512)"
    by (metis div_add_self2 zero_neq_numeral Suc_eq_plus1)
  with False show ?thesis
    by (simp add: min_def)
qed

lemma download_loop_rest:
  assumes "download_loop device buffer progress initial 0 sz nbytes =
      (DC_STATUS_SUCCESS, device', buffer', progress')"
    and "0 < nbytes"
  shows "buffer' = buffer @ take (sz - nbytes)
            (packet_payloads (rx (iostream device)) ((sz - nbytes + 511) div 512))
    \<and> rx (iostream device') = drop (517 * ((sz - nbytes + 511) div 512)) (rx (iostream device))
    \<and> tx (iostream device') = tx (iostream device) @ replicate ((sz - nbytes + 511) div 512) ACK
    \<and> fingerprint device' = fingerprint device
    \<and> 517 * ((sz - nbytes + 511) div 512) \<le> length (rx (iostream device))"
  using assms
proof (induction "sz - nbytes" arbitrary: device buffer progress nbytes rule: less_induct)
  case less
  show ?case
  proof (cases "nbytes < sz")
    case False
    then have "download_loop device buffer progress initial 0 sz nbytes =
        (DC_STATUS_SUCCESS, device, buffer, progress)"
      by (subst download_loop.simps) simp
    with less.prems False show ?thesis
      by simp
  next
    case True
    let ?rx = "rx (iostream device)"
    let ?len = "min 512 (sz - nbytes)"
    let ?d1 = "device\<lparr>iostream := (iostream device)\<lparr>rx := drop 517 ?rx,
        tx := tx (iostream device) @ [ACK]\<rparr>\<rparr>"
    let ?b1 = "buffer @ take ?len (drop 3 (take 517 ?rx))"
    let ?p1 = "map_option (\<lambda>p. p\<lparr>current := initial + STEP (nbytes + ?len) sz\<rparr>) progress"
    from less.prems(1) have long: "\<not> length ?rx < 517"
      by (simp add: download_loop_unfold [OF True] split: if_splits)
    from less.prems have rec: "download_loop ?d1 ?b1 ?p1 initial 0 sz (nbytes + ?len) =
        (DC_STATUS_SUCCESS, device', buffer', progress')"
      using less.prems(2) by (simp add: download_loop_unfold [OF True] Let_def split: if_splits)
    have dec: "sz - (nbytes + ?len) < sz - nbytes"
      using True by (cases "512 \<le> sz - nbytes") (simp_all add: min_def)
    have pos: "0 < nbytes + ?len"
      using less.prems(2) by simp
    note ih = less.hyps [OF dec rec pos]
    let ?m' = "(sz - (nbytes + ?len) + 511) div 512"
    have "sz - (nbytes + ?len) = (sz - nbytes) - min 512 (sz - nbytes)"
      by simp
    then have m: "(sz - nbytes + 511) div 512 = Suc ?m'"
      using True ceil_step [of "sz - nbytes"] by simp
    have pay: "take ?len (drop 3 (take 517 ?rx)) = take ?len (take 512 (drop 3 ?rx))"
      by (simp add: drop_take min_def)
    have l512: "length (take 512 (drop 3 ?rx)) = 512"
      using long by simp
    have "take (sz - nbytes) (packet_payloads ?rx (Suc ?m')) =
        take ?len (take 512 (drop 3 ?rx)) @
        take (sz - (nbytes + ?len)) (packet_payloads (drop 517 ?rx) ?m')"
    proof (cases "512 \<le> sz - nbytes")
      case c: True
      then have "min 512 (sz - nbytes) = 512"
        by simp
      then show ?thesis
        using l512 by simp
    next
      case c: False
      then have e: "min 512 (sz - nbytes) = sz - nbytes"
        by simp
      then have "?m' = 0"
        by simp
      then show ?thesis
        using l512 c by (simp add: e)
    qed
    note tk = this
    have rx1: "rx (iostream ?d1) = drop 517 ?rx" and tx1: "tx (iostream ?d1) = tx (iostream device) @ [ACK]"
      and fp1: "fingerprint ?d1 = fingerprint device"
      by simp_all
    have c1: "buffer' = buffer @ take (sz - nbytes) (packet_payloads ?rx (Suc ?m'))"
      using ih unfolding rx1 tk pay by simp
    have e: "517 * Suc ?m' = 517 * ?m' + 517"
      by (simp only: mult_Suc_right add.commute)
    have c2: "rx (iostream device') = drop (517 * Suc ?m') ?rx"
      using ih unfolding rx1 e by (simp only: drop_drop)
    have c3: "tx (iostream device') = tx (iostream device) @ replicate (Suc ?m') ACK"
      using ih unfolding tx1 by simp
    have c4: "fingerprint device' = fingerprint device"
      using ih unfolding fp1 by simp
    have "517 * ?m' \<le> length ?rx - 517"
      using ih unfolding rx1 by simp
    then have c5: "517 * Suc ?m' \<le> length ?rx"
      using long unfolding e by linarith
    show ?thesis
      unfolding m using c1 c2 c3 c4 c5 by blast
  qed
qed


lemma length_packet_payloads:
  "517 * n \<le> length bs \<Longrightarrow> length (packet_payloads bs n) = 512 * n"
proof (induction n arbitrary: bs)
  case 0
  show ?case by simp
next
  case (Suc n)
  from Suc.prems have a: "517 \<le> length bs" and b: "517 * n \<le> length (drop 517 bs)"
    by simp_all
  from a have "length (take 512 (drop 3 bs)) = 512"
    by simp
  with Suc.IH [OF b] show ?case
    by simp
qed

lemma array_uint16_le_take:
  "2 \<le> n \<Longrightarrow> array_uint16_le (take n bs) = array_uint16_le bs"
  by (simp add: array_uint16_le_def)

lemma download_success:
  assumes ok: "cressi_goa_device_download device buffer0 progress =
      (DC_STATUS_SUCCESS, device', buffer', progress')"
  shows "buffer' = drop 2 (take (unat (array_uint16_le (drop 3 (rx (iostream device)))) + 2)
            (packet_payloads (rx (iostream device))
               ((unat (array_uint16_le (drop 3 (rx (iostream device)))) + 2 + 511) div 512)))
    \<and> length buffer' = unat (array_uint16_le (drop 3 (rx (iostream device))))
    \<and> rx (iostream device') =
        drop (517 * ((unat (array_uint16_le (drop 3 (rx (iostream device)))) + 2 + 511) div 512) + 1)
          (rx (iostream device))
    \<and> tx (iostream device') = tx (iostream device) @
        replicate ((unat (array_uint16_le (drop 3 (rx (iostream device)))) + 2 + 511) div 512 + 1) ACK
    \<and> fingerprint device' = fingerprint device"
proof -
  let ?rx = "rx (iostream device)"
  let ?E = "unat (array_uint16_le (drop 3 ?rx))"
  let ?T = "?E + 2"
  let ?n = "(?T + 511) div 512"
  let ?initial = "case progress of Some p \<Rightarrow> current p | None \<Rightarrow> 0"
  obtain d1 b1 p1 where loop: "download_loop device [] progress ?initial 2 2 0 =
      (DC_STATUS_SUCCESS, d1, b1, p1)"
    and tail: "(case dc_iostream_read (iostream d1) 1 of
                  (status, end, io1) \<Rightarrow>
                    if status \<noteq> DC_STATUS_SUCCESS
                      then (status, d1\<lparr>iostream := io1\<rparr>, b1, p1)
                    else if end ! 0 \<noteq> END
                      then (DC_STATUS_PROTOCOL, d1\<lparr>iostream := io1\<rparr>, b1, p1)
                    else
                      (case dc_iostream_write io1 [ACK] of
                         (status, io2) \<Rightarrow>
                           if status \<noteq> DC_STATUS_SUCCESS
                             then (status, d1\<lparr>iostream := io2\<rparr>, b1, p1)
                           else (status, d1\<lparr>iostream := io2\<rparr>, b1, p1))) =
       (DC_STATUS_SUCCESS, device', buffer', progress')"
    using ok unfolding cressi_goa_device_download_def Let_def dc_buffer_clear_def
    by (auto split: prod.splits if_splits)
  have long: "\<not> length ?rx < 517"
    using loop by (simp add: download_loop_unfold [of 0 2] split: if_splits)
  then have E: "unat (array_uint16_le (drop 3 (take 517 ?rx))) = ?E"
    by (simp add: drop_take array_uint16_le_take)
  let ?len = "min 512 ?T"
  let ?d0 = "device\<lparr>iostream := (iostream device)\<lparr>rx := drop 517 ?rx,
        tx := tx (iostream device) @ [ACK]\<rparr>\<rparr>"
  let ?b0 = "take (?len - 2) (drop 5 (take 517 ?rx))"
  obtain p0 where rest: "download_loop ?d0 ?b0 p0 ?initial 0 ?T ?len = (DC_STATUS_SUCCESS, d1, b1, p1)"
    using loop long
    by (simp add: download_loop_unfold [of 0 2] E Let_def add.commute split: if_splits)
  have pos: "0 < ?len"
    by simp
  note r = download_loop_rest [OF rest pos]
  let ?m' = "(?T - ?len + 511) div 512"
  have n: "?n = Suc ?m'"
    using ceil_step [of ?T] by simp
  have rx0: "rx (iostream ?d0) = drop 517 ?rx" and tx0: "tx (iostream ?d0) = tx (iostream device) @ [ACK]"
    and fp0: "fingerprint ?d0 = fingerprint device"
    by simp_all
  have b1: "b1 = ?b0 @ take (?T - ?len) (packet_payloads (drop 517 ?rx) ?m')"
    using r unfolding rx0 by simp
  have rx1: "rx (iostream d1) = drop (517 * ?m') (drop 517 ?rx)"
    using r unfolding rx0 by simp
  have tx1: "tx (iostream d1) = (tx (iostream device) @ [ACK]) @ replicate ?m' ACK"
    using r unfolding tx0 by simp
  have fp1: "fingerprint d1 = fingerprint device"
    using r unfolding fp0 by simp
  have len1: "517 * ?m' \<le> length (drop 517 ?rx)"
    using r unfolding rx0 by simp
  from tail have fin: "buffer' = b1"
      "device' = d1\<lparr>iostream := (iostream d1)\<lparr>rx := drop 1 (rx (iostream d1)),
          tx := tx (iostream d1) @ [ACK]\<rparr>\<rparr>"
    by (auto simp: dc_iostream_read_def dc_iostream_write_def split: if_splits)
  define A where "A = take 512 (drop 3 ?rx)"
  define B where "B = packet_payloads (drop 517 ?rx) ?m'"
  define T where "T = ?T"
  define len where "len = min 512 T"
  have lA: "length A = 512"
    using long by (simp add: A_def)
  have lB: "length B = 512 * ?m'"
    unfolding B_def using len1 by (rule length_packet_payloads)
  have T2: "2 \<le> T"
    by (simp add: T_def)
  have len2: "2 \<le> len" "len \<le> 512" "len \<le> T"
    using T2 by (simp_all add: len_def)
  have b0: "?b0 = take (len - 2) (drop 2 A)"
    using long by (simp add: drop_take min_def A_def len_def T_def)
  have split_take: "take T (A @ B) = take len A @ take (T - len) B"
    using lA by (cases "512 \<le> T") (simp_all add: len_def min_def)
  have "2 \<le> length (take len A)"
    using lA len2 by simp
  then have "drop 2 (take T (A @ B)) = drop 2 (take len A) @ take (T - len) B"
    unfolding split_take by simp
  also have "drop 2 (take len A) = take (len - 2) (drop 2 A)"
    by (simp only: drop_take)
  finally have dt: "drop 2 (take T (A @ B)) = take (len - 2) (drop 2 A) @ take (T - len) B" .
  have pp: "packet_payloads ?rx (Suc ?m') = A @ B"
    by (simp add: A_def B_def)
  have c1: "buffer' = drop 2 (take ?T (packet_payloads ?rx ?n))"
    unfolding n pp fin b1 b0 using dt by (simp add: T_def len_def B_def)
  have Tn: "T \<le> 512 * ?n"
    unfolding T_def by (simp add: div_mult2_eq)
  have "length (A @ B) = 512 * ?n"
    unfolding n using lA lB by simp
  with Tn have "length (drop 2 (take T (A @ B))) = T - 2"
    by simp
  then have c2: "length buffer' = ?E"
    using c1 unfolding n pp by (simp add: T_def)
  have e: "517 * Suc ?m' + 1 = 1 + (517 * ?m' + 517)"
    by (simp only: mult_Suc_right add.commute add.left_commute)
  have "rx (iostream device') = drop 1 (rx (iostream d1))"
    unfolding fin(2) by simp
  also have "\<dots> = drop (1 + (517 * ?m' + 517)) ?rx"
    by (simp only: rx1 drop_drop)
  finally have c3: "rx (iostream device') = drop (517 * ?n + 1) ?rx"
    unfolding n e .
  have "replicate (Suc ?m' + 1) ACK = [ACK] @ replicate ?m' ACK @ [ACK]"
    by (simp add: replicate_append_same)
  then have c4: "tx (iostream device') = tx (iostream device) @ replicate (?n + 1) ACK"
    unfolding n fin(2) by (simp add: tx1)
  have c5: "fingerprint device' = fingerprint device"
    unfolding fin(2) using fp1 by simp
  show ?thesis
    using c1 c2 c3 c4 c5 by blast
qed

lemma device_packet_parts:
  assumes "length payload = 512"
  shows "length (device_packet payload) = 517"
    and "take 517 (device_packet payload @ rest) = device_packet payload"
    and "drop 517 (device_packet payload @ rest) = rest"
    and "take 512 (drop 3 (device_packet payload)) = payload"
    and "array_uint16_le (drop 515 (device_packet payload)) = checksum_crc16_ccitt payload 0 0"
  using assms by (simp_all add: device_packet_def array_uint16_le_bytes)

lemma download_loop_done:
  "\<not> nbytes < sz \<Longrightarrow>
   download_loop device buffer progress initial skip sz nbytes =
     (DC_STATUS_SUCCESS, device, buffer, progress)"
  by (subst download_loop.simps) simp

lemma download_loop_packet:
  assumes "nbytes < sz" and "length payload = 512"
    and rx: "rx (iostream dev) = device_packet payload @ rest"
  shows "download_loop dev buffer progress initial skip sz nbytes =
    download_loop (dev\<lparr>iostream := (iostream dev)\<lparr>rx := rest, tx := tx (iostream dev) @ [ACK]\<rparr>\<rparr>)
      (buffer @ take (min 512 ((if nbytes = 0 then sz + unat (array_uint16_le payload) else sz)
                        - nbytes) - skip) (drop skip payload))
      (map_option (\<lambda>p. p\<lparr>current := initial + STEP
          (nbytes + min 512 ((if nbytes = 0 then sz + unat (array_uint16_le payload) else sz) - nbytes))
          (if nbytes = 0 then sz + unat (array_uint16_le payload) else sz)\<rparr>) progress)
      initial 0 (if nbytes = 0 then sz + unat (array_uint16_le payload) else sz)
      (nbytes + min 512 ((if nbytes = 0 then sz + unat (array_uint16_le payload) else sz) - nbytes))"
proof -
  note p = device_packet_parts [OF assms(2)]
  have l: "\<not> length (device_packet payload @ rest) < 517"
    by (simp add: p(1))
  have d3: "drop 3 (device_packet payload) = payload @ drop 515 (device_packet payload)"
    using assms(2) by (simp add: device_packet_def)
  have u: "array_uint16_le (drop 3 (device_packet payload)) = array_uint16_le payload"
    unfolding d3 using assms(2) by (simp add: array_uint16_le_def nth_append)
  have "\<And>n. n \<le> 512 \<Longrightarrow> take (n - skip) (drop skip (drop 3 (device_packet payload))) =
      take (n - skip) (drop skip payload)"
    unfolding d3 using assms(2) by simp
  then have tk: "\<And>n. n \<le> 512 \<Longrightarrow> take (n - skip) (drop (3 + skip) (device_packet payload)) =
      take (n - skip) (drop skip payload)"
    by (simp only: drop_drop add.commute)
  have mn: "\<And>x. min 512 x \<le> (512 :: nat)"
    by simp
  show ?thesis
    unfolding download_loop_unfold [OF assms(1), of dev] rx p(2) p(3) p(4) p(5) u Let_def
      tk [OF mn]
    using l by simp
qed

lemma download_end:
  "cressi_goa_device_download device buffer0 progress =
     (case download_loop device [] progress (case progress of Some p \<Rightarrow> current p | None \<Rightarrow> 0)
             2 2 0 of
        (status, device1, buffer1, progress1) \<Rightarrow>
          if status \<noteq> DC_STATUS_SUCCESS then (status, device1, buffer1, progress1)
          else if rx (iostream device1) = []
            then (DC_STATUS_IO, device1\<lparr>iostream := (iostream device1)\<lparr>rx := []\<rparr>\<rparr>, buffer1, progress1)
          else if hd (rx (iostream device1)) \<noteq> END
            then (DC_STATUS_PROTOCOL,
                  device1\<lparr>iostream := (iostream device1)\<lparr>rx := tl (rx (iostream device1))\<rparr>\<rparr>,
                  buffer1, progress1)
          else (DC_STATUS_SUCCESS,
                device1\<lparr>iostream := (iostream device1)\<lparr>rx := tl (rx (iostream device1)),
                    tx := tx (iostream device1) @ [ACK]\<rparr>\<rparr>, buffer1, progress1))"
  unfolding cressi_goa_device_download_def Let_def dc_buffer_clear_def
  by (cases "rx (iostream (fst (snd (download_loop device [] progress
        (case progress of Some p \<Rightarrow> current p | None \<Rightarrow> 0) 2 2 0))))")
    (auto simp: dc_iostream_read_def dc_iostream_write_def split: prod.splits)

lemma download_one_packet:
  assumes "length payload = 512" and "unat (array_uint16_le payload) + 2 \<le> 512"
    and rx: "rx (iostream dev) = device_packet payload @ END # rest"
  shows "cressi_goa_device_download dev buffer0 progress =
    (DC_STATUS_SUCCESS,
     dev\<lparr>iostream := (iostream dev)\<lparr>rx := rest, tx := tx (iostream dev) @ [ACK, ACK]\<rparr>\<rparr>,
     take (unat (array_uint16_le payload)) (drop 2 payload),
     map_option (\<lambda>p. p\<lparr>current := current p +
        STEP (unat (array_uint16_le payload) + 2) (unat (array_uint16_le payload) + 2)\<rparr>) progress)"
proof -
  let ?E = "unat (array_uint16_le payload)"
  have m: "min 510 ?E = ?E"
    using assms(2) by simp
  show ?thesis
    unfolding download_end
    by (cases progress)
      (simp_all add: download_loop_packet [OF _ assms(1) rx] m download_loop_done)
qed

text \<open>
  C4. A download that returns success has read \<open>n = ceiling (T / 512)\<close> packets and
  the end byte, where \<open>T = E + 2\<close> and \<open>E\<close> is the little-endian value at payload
  offset 0 of the first packet; it has acknowledged each of them and the end byte; and
  the output buffer holds exactly \<open>T - 2\<close> bytes: the first \<open>T\<close> bytes of the
  concatenated packet payloads (every packet contributes
  \<open>min 512 (T - received)\<close> bytes) without the two size bytes of the first packet.
\<close>

theorem download_output:
  assumes "cressi_goa_device_download device buffer0 progress =
      (DC_STATUS_SUCCESS, device', buffer', progress')"
  shows "let E = unat (array_uint16_le (drop 3 (rx (iostream device))));
             T = E + 2;
             n = (T + 511) div 512
         in length buffer' = T - 2
          \<and> buffer' = drop 2 (take T (packet_payloads (rx (iostream device)) n))
          \<and> rx (iostream device') = drop (517 * n + 1) (rx (iostream device))
          \<and> tx (iostream device') = tx (iostream device) @ replicate (n + 1) ACK"
proof -
  note r = download_success [OF assms]
  from r [THEN conjunct2, THEN conjunct1]
  have a: "length buffer' = unat (array_uint16_le (drop 3 (rx (iostream device)))) + 2 - 2"
    by (simp only: add_diff_cancel_right')
  from r a show ?thesis
    unfolding Let_def by blast
qed

lemma download_two_packets_example:
  "cressi_goa_device_download
     \<lparr>iostream = \<lparr>rx = device_packet (0xFF # 0x01 # replicate 510 0xAB) @
                        device_packet (0xCD # replicate 511 0) @ [END], tx = []\<rparr>,
      fingerprint = [0, 0, 0, 0, 0, 0]\<rparr> [0x77] None =
   (DC_STATUS_SUCCESS,
    \<lparr>iostream = \<lparr>rx = [], tx = [ACK, ACK, ACK]\<rparr>, fingerprint = [0, 0, 0, 0, 0, 0]\<rparr>,
    replicate 510 0xAB @ [0xCD], None)"
proof -
  have u: "unat (array_uint16_le (0xFF # 0x01 # replicate 510 0xAB)) = 511"
    by (simp add: array_uint16_le_def)
  have s1: "download_loop \<lparr>iostream = \<lparr>rx = device_packet (0xFF # 0x01 # replicate 510 0xAB) @
                        device_packet (0xCD # replicate 511 0) @ [END], tx = []\<rparr>,
                        fingerprint = [0, 0, 0, 0, 0, 0]\<rparr> [] None 0 2 2 0 =
      download_loop \<lparr>iostream = \<lparr>rx = device_packet (0xCD # replicate 511 0) @ [END],
          tx = [ACK]\<rparr>, fingerprint = [0, 0, 0, 0, 0, 0]\<rparr> (replicate 510 0xAB) None 0 0 513 512"
    by (subst download_loop_packet [where payload = "0xFF # 0x01 # replicate 510 0xAB"
          and rest = "device_packet (0xCD # replicate 511 0) @ [END]"]) (simp_all add: u)
  have s2: "download_loop \<lparr>iostream = \<lparr>rx = device_packet (0xCD # replicate 511 0) @ [END],
          tx = [ACK]\<rparr>, fingerprint = [0, 0, 0, 0, 0, 0]\<rparr> (replicate 510 0xAB) None 0 0 513 512 =
      download_loop \<lparr>iostream = \<lparr>rx = [END], tx = [ACK, ACK]\<rparr>, fingerprint = [0, 0, 0, 0, 0, 0]\<rparr>
          (replicate 510 0xAB @ [0xCD]) None 0 0 513 513"
    by (subst download_loop_packet [where payload = "0xCD # replicate 511 0" and rest = "[END]"])
      simp_all
  show ?thesis
    unfolding download_end option.case s1 s2
    by (simp add: download_loop_done)
qed


theorem download_output_witness:
  "cressi_goa_device_download
     \<lparr>iostream = \<lparr>rx = device_packet (0xFF # 0x01 # replicate 510 0xAB) @
                        device_packet (0xCD # replicate 511 0) @ [END], tx = []\<rparr>,
      fingerprint = [0, 0, 0, 0, 0, 0]\<rparr> [0x77] None =
   (DC_STATUS_SUCCESS,
    \<lparr>iostream = \<lparr>rx = [], tx = [ACK, ACK, ACK]\<rparr>, fingerprint = [0, 0, 0, 0, 0, 0]\<rparr>,
    replicate 510 0xAB @ [0xCD], None)
   \<and> unat (array_uint16_le (drop 3 (device_packet (0xFF # 0x01 # replicate 510 0xAB) @
                        device_packet (0xCD # replicate 511 0) @ [END]))) = 511
   \<and> length (replicate 510 (0xAB :: byte) @ [0xCD]) = 511 + 2 - 2
   \<and> replicate 510 0xAB @ [0xCD] =
       drop 2 (take (511 + 2) (packet_payloads (device_packet (0xFF # 0x01 # replicate 510 0xAB) @
                        device_packet (0xCD # replicate 511 0) @ [END]) ((511 + 2 + 511) div 512)))"
proof -
  have u: "unat (array_uint16_le (drop 3 (device_packet (0xFF # 0x01 # replicate 510 0xAB) @
                        device_packet (0xCD # replicate 511 0) @ [END]))) = 511"
    by (simp add: device_packet_def array_uint16_le_def)
  have sel: "rx (iostream \<lparr>iostream = \<lparr>rx = device_packet (0xFF # 0x01 # replicate 510 0xAB) @
                        device_packet (0xCD # replicate 511 0) @ [END], tx = []\<rparr>,
      fingerprint = [0, 0, 0, 0, 0, 0 :: byte]\<rparr>) = device_packet (0xFF # 0x01 # replicate 510 0xAB) @
                        device_packet (0xCD # replicate 511 0) @ [END]"
    by simp
  note t = download_output [OF download_two_packets_example, unfolded Let_def sel u]
  show ?thesis
    using t download_two_packets_example u by blast
qed

subsection \<open>Identification\<close>

lemma transfer_answer:
  assumes "length input \<le> 12" "length ans \<le> 12"
    and "rx (iostream device) = send_packet c ans @ rest"
  shows "cressi_goa_device_transfer device cmd input outp None progress =
    (DC_STATUS_SUCCESS,
     device\<lparr>iostream := \<lparr>rx = rest, tx = tx (iostream device) @ send_packet cmd input\<rparr>\<rparr>,
     map_option (\<lambda>_. ans) outp, None, progress)"
proof -
  let ?d1 = "device\<lparr>iostream :=
    (iostream device)\<lparr>tx := tx (iostream device) @ send_packet cmd input\<rparr>\<rparr>"
  have rx1: "rx (iostream ?d1) = send_packet c ans @ rest"
    using assms(3) by simp
  show ?thesis
    unfolding cressi_goa_device_transfer_def send_writes_packet [OF assms(1)]
      split receive_send_packet [OF assms(2) rx1]
    by simp
qed

lemma unat_minus_one_32: "unat (- 1 :: 32 word) = 4294967295"
  by (simp add: unsigned_minus_1_eq_mask mask_eq_exp_minus_1)

lemma api_version_values:
  "cressi_goa_irda_api_version \<lparr>model = 1, firmware = 163, serial = sn\<rparr> = Inr 0"
  "cressi_goa_irda_api_version \<lparr>model = 3, firmware = 105, serial = sn\<rparr> = Inr 3"
  "cressi_goa_irda_api_version \<lparr>model = 9, firmware = 202, serial = sn\<rparr> = Inr 4"
  "cressi_goa_irda_api_version \<lparr>model = 3, firmware = 163, serial = sn\<rparr> = Inr (- 1)"
  "cressi_goa_irda_api_version \<lparr>model = 0, firmware = 163, serial = sn\<rparr> = Inl OutOfBounds"
  by (simp_all add: cressi_goa_irda_api_version_def version_support_on_model_def
      unat_minus_one_32)

text \<open>
  What \<^verbatim>\<open>cressi_goa_read_id\<close> returns when the device answers the version query with
  a well-formed frame carrying \<open>ans\<close>.
\<close>

lemma read_id_answer:
  assumes "length ans \<le> 12" and "rx (iostream device) = send_packet c ans @ rest"
  shows "cressi_goa_read_id device e =
    (case find (\<lambda>cf. length ans = idlen cf) version_conf of
       None \<Rightarrow>
         Inr (DC_STATUS_SUCCESS,
              device\<lparr>iostream := \<lparr>rx = rest, tx = tx (iostream device) @ send_packet CMD_VERSION []\<rparr>\<rparr>,
              None)
     | Some conf_ \<Rightarrow>
         (case cressi_goa_irda_api_version
                 \<lparr>model = ucast (ans ! 4), firmware = ucast (array_uint16_le (drop 5 ans)),
                  serial = array_uint32_le ans\<rparr> of
            Inl f \<Rightarrow> Inl f
          | Inr v \<Rightarrow>
              if v = - 1 then
                Inr (DC_STATUS_UNSUPPORTED,
                     device\<lparr>iostream :=
                       \<lparr>rx = rest, tx = tx (iostream device) @ send_packet CMD_VERSION []\<rparr>\<rparr>,
                     None)
              else
                Inr (DC_STATUS_SUCCESS,
                     device\<lparr>iostream :=
                       \<lparr>rx = rest, tx = tx (iostream device) @ send_packet CMD_VERSION []\<rparr>\<rparr>,
                     Some (conf_\<lparr>version := of_int v\<rparr>))))"
  unfolding cressi_goa_read_id_def dc_buffer_new_def
  by (simp add: transfer_answer [OF _ assms] dc_buffer_get_size_def dc_buffer_get_data_def Let_def
      split: option.splits sum.splits)

lemma find_version_conf:
  "find (\<lambda>cf. n = idlen cf) version_conf =
     (if n = 9 then Some \<lparr>version = 0, idlen = 9, logbook_entry_len = 23,
                          logbook_fp_offset = 17, cmd_logbook = 0x21\<rparr>
      else if n = 11 then Some \<lparr>version = 4, idlen = 11, logbook_entry_len = 15,
                          logbook_fp_offset = 3, cmd_logbook = 0x23\<rparr>
      else None)"
  by (simp add: version_conf_def SZ_HEADER_def FP_OFFSET_def CMD_LOGBOOK_def CMD_LOGBOOK_V4_def)

text \<open>
  C3. The version matrix. Model 1 with firmware 163 is API version 0, and a 9-byte
  identification answer with these values yields the configuration
  \<open>{entry length 23, fingerprint offset 0x11, logbook command 0x21}\<close>; model 3 with
  firmware 105 is version 3 with the same configuration; model 9 with firmware 202
  is version 4, and an 11-byte answer with these values yields
  \<open>{entry length 15, fingerprint offset 3, logbook command 0x23}\<close>; model 3 with
  firmware 163 is refused, and identification returns \<open>DC_STATUS_UNSUPPORTED\<close>. The
  answer carries the serial number in bytes 0 to 3, the model in byte 4 and the
  firmware in bytes 5 and 6, low byte first.
\<close>

theorem version_matrix:
  "cressi_goa_irda_api_version \<lparr>model = 1, firmware = 163, serial = sn\<rparr> = Inr 0
   \<and> cressi_goa_read_id
        (device\<lparr>iostream := \<lparr>rx = send_packet c [s0, s1, s2, s3, 1, 163, 0, a, b] @ rest, tx = t\<rparr>\<rparr>) e =
      Inr (DC_STATUS_SUCCESS,
           device\<lparr>iostream := \<lparr>rx = rest, tx = t @ send_packet CMD_VERSION []\<rparr>\<rparr>,
           Some \<lparr>version = 0, idlen = 9, logbook_entry_len = 23, logbook_fp_offset = 0x11,
                 cmd_logbook = 0x21\<rparr>)
   \<and> cressi_goa_irda_api_version \<lparr>model = 3, firmware = 105, serial = sn\<rparr> = Inr 3
   \<and> cressi_goa_read_id
        (device\<lparr>iostream := \<lparr>rx = send_packet c [s0, s1, s2, s3, 3, 105, 0, a, b] @ rest, tx = t\<rparr>\<rparr>) e =
      Inr (DC_STATUS_SUCCESS,
           device\<lparr>iostream := \<lparr>rx = rest, tx = t @ send_packet CMD_VERSION []\<rparr>\<rparr>,
           Some \<lparr>version = 3, idlen = 9, logbook_entry_len = 23, logbook_fp_offset = 0x11,
                 cmd_logbook = 0x21\<rparr>)
   \<and> cressi_goa_irda_api_version \<lparr>model = 9, firmware = 202, serial = sn\<rparr> = Inr 4
   \<and> cressi_goa_read_id
        (device\<lparr>iostream := \<lparr>rx = send_packet c [s0, s1, s2, s3, 9, 202, 0, a, b, a', b'] @ rest,
                               tx = t\<rparr>\<rparr>) e =
      Inr (DC_STATUS_SUCCESS,
           device\<lparr>iostream := \<lparr>rx = rest, tx = t @ send_packet CMD_VERSION []\<rparr>\<rparr>,
           Some \<lparr>version = 4, idlen = 11, logbook_entry_len = 15, logbook_fp_offset = 3,
                 cmd_logbook = 0x23\<rparr>)
   \<and> cressi_goa_irda_api_version \<lparr>model = 3, firmware = 163, serial = sn\<rparr> = Inr (- 1)
   \<and> cressi_goa_read_id
        (device\<lparr>iostream := \<lparr>rx = send_packet c [s0, s1, s2, s3, 3, 163, 0, a, b] @ rest, tx = t\<rparr>\<rparr>) e =
      Inr (DC_STATUS_UNSUPPORTED,
           device\<lparr>iostream := \<lparr>rx = rest, tx = t @ send_packet CMD_VERSION []\<rparr>\<rparr>, None)"
proof -
  have fw: "(ucast (array_uint16_le [163, 0, a, b]) :: 32 word) = 163"
      "(ucast (array_uint16_le [105, 0, a, b]) :: 32 word) = 105"
      "(ucast (array_uint16_le [202, 0, a, b, a', b']) :: 32 word) = 202"
    by (simp_all add: array_uint16_le_def)
  note r = read_id_answer [where rest = rest and c = c and e = e]
  show ?thesis
    by (simp add: r [where ans = "[s0, s1, s2, s3, 1, 163, 0, a, b]"]
        r [where ans = "[s0, s1, s2, s3, 3, 105, 0, a, b]"]
        r [where ans = "[s0, s1, s2, s3, 9, 202, 0, a, b, a', b']"]
        r [where ans = "[s0, s1, s2, s3, 3, 163, 0, a, b]"]
        find_version_conf api_version_values fw)
qed

text \<open>
  C2. An answer to the version query whose length is neither 9 nor 11 (here 4 bytes):
  no entry of \<^verbatim>\<open>version_conf\<close> matches, the source jumps to \<^verbatim>\<open>error_exit\<close> with
  \<^verbatim>\<open>status\<close> still \<open>DC_STATUS_SUCCESS\<close> from the transfer, and returns it without
  writing \<^verbatim>\<open>*conf\<close>. \<^verbatim>\<open>cressi_goa_device_foreach\<close> then goes on with its
  uninitialised \<^verbatim>\<open>conf\<close>.
\<close>

theorem read_id_unknown_length_returns_success:
  "cressi_goa_read_id
      (device\<lparr>iostream := \<lparr>rx = send_packet c [a0, a1, a2, a3] @ rest, tx = t\<rparr>\<rparr>) e =
     Inr (DC_STATUS_SUCCESS,
          device\<lparr>iostream := \<lparr>rx = rest, tx = t @ send_packet CMD_VERSION []\<rparr>\<rparr>, None)
   \<and> cressi_goa_device_foreach
      (device\<lparr>iostream := \<lparr>rx = send_packet c [a0, a1, a2, a3] @ rest, tx = t\<rparr>\<rparr>)
      callback userdata = Some (Inl Uninitialised)"
  by (simp add: cressi_goa_device_foreach_def
      read_id_answer [where ans = "[a0, a1, a2, a3]" and rest = rest and c = c]
      find_version_conf)

text \<open>
  C10. A 9-byte identification answer with model byte 0 and a recognised firmware
  (163): the test \<^verbatim>\<open>devinfo->model > 11\<close> lets model 0 pass, and the support matrix
  is then read at column \<^verbatim>\<open>devinfo->model - 1\<close>, which is outside its 11 columns.
\<close>

theorem api_version_model_zero_out_of_bounds:
  "cressi_goa_irda_api_version \<lparr>model = 0, firmware = 163, serial = sn\<rparr> = Inl OutOfBounds
   \<and> cressi_goa_read_id
        (device\<lparr>iostream := \<lparr>rx = send_packet c [s0, s1, s2, s3, 0, 163, 0, a, b] @ rest, tx = t\<rparr>\<rparr>) e =
      Inl OutOfBounds"
proof -
  have fw: "(ucast (array_uint16_le [163, 0, a, b]) :: 32 word) = 163"
    by (simp add: array_uint16_le_def)
  show ?thesis
    by (simp add: read_id_answer [where ans = "[s0, s1, s2, s3, 0, 163, 0, a, b]"
          and rest = rest and c = c]
        find_version_conf api_version_values fw)
qed

end
